theory Spec2Isabelle
  imports Main "HOL-Library.AList"
begin

section \<open>JavaScript values\<close>

text \<open>
  Settings, rule sets and the project configuration file are plain JSON data. An object is
  the list of its own enumerable properties in creation order; \<open>undefined\<close> is \<open>None\<close> of
  \<open>json option\<close>. Numbers are the integers (no rule setting or severity in the sources is
  fractional).
\<close>

datatype json =
    JNull
  | JBool bool
  | JNum int
  | JStr string
  | JArr "json list"
  | JObj "(string \<times> json) list"

datatype js_error = SyntaxError | TypeError

type_synonym props = "(string \<times> json) list"

text \<open>Truthiness, as used by \<open>||\<close>, \<open>&&\<close> and \<open>!\<close>.\<close>

fun truthy :: "json option \<Rightarrow> bool" where
  "truthy None = False"
| "truthy (Some JNull) = False"
| "truthy (Some (JBool b)) = b"
| "truthy (Some (JNum n)) = (n \<noteq> 0)"
| "truthy (Some (JStr s)) = (s \<noteq> [])"
| "truthy (Some (JArr xs)) = True"
| "truthy (Some (JObj kvs)) = True"

text \<open>Decimal rendering of an array or string index, the property key it is stored under.\<close>

function showNat :: "nat \<Rightarrow> string" where
  "showNat n = (if n < 10 then [char_of (48 + n)]
                else showNat (n div 10) @ [char_of (48 + n mod 10)])"
  by pat_completeness auto
termination
  by (relation "measure id") auto

text \<open>
  The own enumerable properties a source contributes to \<open>Object.assign\<close>: those of an
  object, the indexed elements of an array, the indexed characters of a string, and none
  for \<open>null\<close>, booleans and numbers.
\<close>

fun ownProps :: "json \<Rightarrow> props" where
  "ownProps (JObj kvs) = kvs"
| "ownProps (JArr xs) = map (\<lambda>i. (showNat i, xs ! i)) [0..<length xs]"
| "ownProps (JStr s) = map (\<lambda>i. (showNat i, JStr [s ! i])) [0..<length s]"
| "ownProps JNull = []"
| "ownProps (JBool b) = []"
| "ownProps (JNum n) = []"

text \<open>
  \<open>Object.assign(target, ...sources)\<close>: every property of every source is written into the
  target, sources left to right, an \<open>undefined\<close> source skipped. The result is the target
  object itself, so the caller's target is changed: the function returns its new content.
\<close>

definition assignFrom :: "json option \<Rightarrow> props \<Rightarrow> props" where
  "assignFrom src target =
     (case src of
        None \<Rightarrow> target
      | Some j \<Rightarrow> fold (\<lambda>kv t. AList.update (fst kv) (snd kv) t) (ownProps j) target)"

definition Object_assign :: "props \<Rightarrow> json option list \<Rightarrow> props" where
  "Object_assign target sources = fold assignFrom sources target"

section \<open>The solhint linter service (linter/solhint.ts)\<close>

subsection \<open>Diagnostics\<close>

datatype Severity = Error | Warning | Information | Hint

record position =
  line :: int
  character :: int

record range =
  start :: position
  "end" :: position

record diagnostic =
  message :: string
  severity :: Severity
  range :: range

text \<open>One message of the solhint engine (\<open>processStr(...).messages\<close>).\<close>

record lint_error =
  e_message :: string
  e_ruleId :: string
  e_severity :: int
  e_line :: int
  e_column :: int

definition severity_of :: "lint_error \<Rightarrow> Severity" where
  "severity_of error = (if e_severity error = 3 then Warning else Error)"

definition rangeOf :: "lint_error \<Rightarrow> range" where
  "rangeOf error =
     (let line = e_line error - 1;
          character = e_column error - 1
      in \<lparr>start = \<lparr>line = line, character = character\<rparr>,
          end = \<lparr>line = line, character = character + 1\<rparr>\<rparr>)"

definition toDiagnostic :: "lint_error \<Rightarrow> diagnostic" where
  "toDiagnostic error =
     \<lparr>message = e_message error @ '' ['' @ e_ruleId error @ '']'',
      severity = severity_of error,
      range = rangeOf error\<rparr>"

subsection \<open>ValidationConfig\<close>

text \<open>
  \<open>DEFAULT_RULES\<close> is a static of the class, one object shared by every call and every
  instance; \<open>ideRules\<close> and \<open>fileConfig\<close> are the fields of the instance.
\<close>

record validation_config =
  DEFAULT_RULES :: props
  ideRules :: json
  fileConfig :: json

definition initial_DEFAULT_RULES :: props where
  "initial_DEFAULT_RULES = [(''func-visibility'', JBool False)]"

definition EMPTY_CONFIG :: json where
  "EMPTY_CONFIG = JObj [(''rules'', JObj [])]"

definition setIdeRules :: "json option \<Rightarrow> validation_config \<Rightarrow> validation_config" where
  "setIdeRules rules c =
     c\<lparr>ideRules := (if truthy rules then the rules else JObj [])\<rparr>"

text \<open>Reading the property \<open>rules\<close> of a value: a \<open>TypeError\<close> on \<open>null\<close>.\<close>

fun rules_of :: "json \<Rightarrow> js_error + json option" where
  "rules_of JNull = Inl TypeError"
| "rules_of (JObj kvs) = Inr (map_of kvs ''rules'')"
| "rules_of (JBool b) = Inr None"
| "rules_of (JNum n) = Inr None"
| "rules_of (JStr s) = Inr None"
| "rules_of (JArr xs) = Inr None"

text \<open>
  \<open>build()\<close>: the arguments are evaluated first (the read of \<open>fileConfig.rules\<close> may throw),
  then \<open>Object.assign\<close> writes into its first argument, the static \<open>DEFAULT_RULES\<close>.
  Returned: the configuration object and the instance with the static as it now is.
\<close>

definition build :: "validation_config \<Rightarrow> js_error + (json \<times> validation_config)" where
  "build c =
     (case rules_of (fileConfig c) of
        Inl e \<Rightarrow> Inl e
      | Inr fileRules \<Rightarrow>
          (let merged = Object_assign (DEFAULT_RULES c) [Some (ideRules c), fileRules]
           in Inr (JObj [(''rules'', JObj merged)], c\<lparr>DEFAULT_RULES := merged\<rparr>)))"

text \<open>
  \<open>readFileConfig\<close> resets the file layer and starts the asynchronous read; the read
  completes with \<open>onConfigLoaded(err, data)\<close>, where \<open>err\<close> is \<open>null\<close> (\<open>None\<close>) or an error.
  \<open>JSON.parse\<close> is a parameter: it returns the parsed value or throws a \<open>SyntaxError\<close>.
\<close>

definition readFileConfig :: "validation_config \<Rightarrow> validation_config" where
  "readFileConfig c = c\<lparr>fileConfig := EMPTY_CONFIG\<rparr>"

definition onConfigLoaded ::
  "(string \<Rightarrow> js_error + json) \<Rightarrow> string option \<Rightarrow> string \<Rightarrow> validation_config
     \<Rightarrow> js_error + validation_config" where
  "onConfigLoaded JSON_parse err data c =
     (if err \<noteq> None then Inr (c\<lparr>fileConfig := JBool False\<rparr>)
      else (case JSON_parse data of
              Inl e \<Rightarrow> Inl e
            | Inr v \<Rightarrow> Inr (c\<lparr>fileConfig := v\<rparr>)))"

text \<open>
  The constructor: \<open>setIdeRules(ideRules)\<close>, then \<open>loadFileConfig\<close>, whose synchronous part
  is \<open>readFileConfig\<close>.
\<close>

definition new_ValidationConfig :: "props \<Rightarrow> json option \<Rightarrow> validation_config" where
  "new_ValidationConfig defaults rules =
     readFileConfig (setIdeRules rules
       \<lparr>DEFAULT_RULES = defaults, ideRules = JObj [], fileConfig = EMPTY_CONFIG\<rparr>)"

subsection \<open>SolhintService.validate\<close>

text \<open>
  The engine's \<open>processStr(text, config).messages\<close> is a parameter. \<open>validate\<close> builds the
  configuration, runs the engine and maps every message to a diagnostic.
\<close>

definition SolhintService_validate ::
  "(string \<Rightarrow> json \<Rightarrow> lint_error list) \<Rightarrow> validation_config \<Rightarrow> string \<Rightarrow> string
     \<Rightarrow> js_error + (diagnostic list \<times> validation_config)" where
  "SolhintService_validate processStr c filePath documentText =
     (case build c of
        Inl e \<Rightarrow> Inl e
      | Inr (cfg, c') \<Rightarrow> Inr (map toDiagnostic (processStr documentText cfg), c'))"

section \<open>The language server\<close>

text \<open>
  Two revisions of the server module are in the sources: \<open>server.ts\<close>, which validates
  synchronously and knows the legacy settings \<open>enabledSolium\<close> and \<open>soliumRules\<close>, and the
  module that follows the linter service in \<open>linter/solhint.ts\<close>, which compiles
  asynchronously, caches the last compile diagnostics of every file and lints on a
  throttle. Both share the settings and the linter objects below.
\<close>

datatype document = Document (uri: string)

datatype linter_setting = LBool bool | LStr string

record settings =
  cfg_enabledSolium :: bool
  cfg_linter :: linter_setting
  cfg_enabledAsYouTypeCompilationErrorCheck :: bool
  cfg_compileUsingLocalVersion :: string
  cfg_compileUsingRemoteVersion :: string
  cfg_soliumRules :: "json option"
  cfg_linterDefaultRules :: "json option"
  cfg_validationDelay :: int

text \<open>
  Modelled from the spec: the linter adapter behind the interface \<open>Linter\<close>, whose
  declaration and whose solium variant are not among the sources. A linter object is the
  class it was constructed from and the IDE rules it was last given, by its constructor or
  by \<open>setIdeRules\<close>, which replaces them. What a linter reports for a file is the
  parameter \<open>linter_validate\<close> of the environment.
\<close>

datatype linter_class = SolhintService | SoliumService

record linter_obj =
  service :: linter_class
  givenRules :: "json option"

definition new_linter :: "linter_class \<Rightarrow> json option \<Rightarrow> linter_obj" where
  "new_linter cls rules = \<lparr>service = cls, givenRules = rules\<rparr>"

definition linter_setIdeRules :: "json option \<Rightarrow> linter_obj \<Rightarrow> linter_obj" where
  "linter_setIdeRules rules l = l\<lparr>givenRules := rules\<rparr>"

record externals =
  uriToFilePath :: "string \<Rightarrow> string"
  linter_validate :: "linter_obj \<Rightarrow> string \<Rightarrow> string \<Rightarrow> diagnostic list"

text \<open>A settled promise; the reason of a rejection is never inspected by the server.\<close>

datatype 'a settled = Fulfilled 'a | Rejected

text \<open>
  The promise \<open>validateCompilation\<close> returns: already settled, or the end of the chain
  attached to the compilation with the given number.
\<close>

datatype promise = Settled "bool settled" | Awaiting nat

record compilation =
  c_document :: document
  c_filePath :: string
  c_code :: string

text \<open>
  The module's variables, followed by the run-time state around them: the open documents
  of the document manager and their current text (by URI), the log of
  \<open>connection.sendDiagnostics\<close> calls (oldest first), the \<open>setTimeout\<close> callbacks not yet
  fired, the pending call of the throttled lint, the pending \<open>intialiseCompiler\<close> promises,
  the compilations in flight by promise number, and the pending \<open>Promise.all\<close> aggregates.
\<close>

record server_state =
  rootPath :: string
  linter :: "linter_obj option"
  lastCompileErrorsForDocument :: "string \<rightharpoonup> diagnostic list option"
  enabledAsYouTypeErrorCheck :: bool
  compileUsingRemoteVersion :: string
  compileUsingLocalVersion :: string
  linterOption :: linter_setting
  linterDefaultRules :: "json option"
  validationDelay :: int
  validatingDocument :: bool
  validatingAllDocuments :: bool
  documents :: "document list"
  contents :: "string \<Rightarrow> string"
  sent :: "(string \<times> diagnostic list) list"
  timers :: "document list"
  throttled :: "document option"
  initialising :: nat
  compiling :: "(nat \<times> compilation) list"
  nextPromise :: nat
  joins :: "promise list list"

definition server_initial :: server_state where
  "server_initial =
     \<lparr>rootPath = [], linter = None, lastCompileErrorsForDocument = Map.empty,
      enabledAsYouTypeErrorCheck = False, compileUsingRemoteVersion = [],
      compileUsingLocalVersion = [], linterOption = LBool False,
      linterDefaultRules = Some (JObj []), validationDelay = 1500,
      validatingDocument = False, validatingAllDocuments = False,
      documents = [], contents = (\<lambda>u. []), sent = [], timers = [], throttled = None,
      initialising = 0, compiling = [], nextPromise = 0, joins = []\<rparr>"

subsection \<open>Linter selection in server.ts\<close>

definition linterName :: "settings \<Rightarrow> linter_setting" where
  "linterName st =
     (let linter = cfg_linter st;
          enabledSolium = cfg_enabledSolium st
      in if enabledSolium then LStr ''solium'' else linter)"

definition linterRules :: "settings \<Rightarrow> json option" where
  "linterRules st =
     (let linterDefaultRules = cfg_linterDefaultRules st;
          soliumRules = cfg_soliumRules st;
          linterName' = linterName st
      in if linterName' = LStr ''solium''
         then (if truthy soliumRules then soliumRules else linterDefaultRules)
         else linterDefaultRules)"

text \<open>
  The \<open>switch\<close> of \<open>onDidChangeConfiguration\<close>: the case labels are compared with \<open>===\<close>, so
  a boolean setting reaches the \<open>default\<close> branch.
\<close>

definition switchLinter :: "linter_setting \<Rightarrow> json option \<Rightarrow> linter_obj option" where
  "switchLinter name rules =
     (if name = LStr ''solhint'' then Some (new_linter SolhintService rules)
      else if name = LStr ''solium'' then Some (new_linter SoliumService rules)
      else None)"

text \<open>
  \<open>onDidChangeConfiguration\<close> of server.ts up to its last statement: the settings are
  copied into the module's variables, the linter is chosen by \<open>linterName\<close> and given the
  rules of \<open>linterRules\<close>. The handler then calls \<open>startValidation()\<close>, which assigns none
  of these variables.
\<close>

definition server_applySettings :: "settings \<Rightarrow> server_state \<Rightarrow> server_state" where
  "server_applySettings st s =
     (let s1 = s\<lparr>enabledAsYouTypeErrorCheck := cfg_enabledAsYouTypeCompilationErrorCheck st,
                 linterOption := cfg_linter st,
                 compileUsingLocalVersion := cfg_compileUsingLocalVersion st,
                 compileUsingRemoteVersion := cfg_compileUsingRemoteVersion st,
                 linterDefaultRules := cfg_linterDefaultRules st,
                 validationDelay := cfg_validationDelay st\<rparr>;
          s2 = s1\<lparr>linter := switchLinter (linterName st) (linterDefaultRules s1)\<rparr>
      in (case linter s2 of
            None \<Rightarrow> s2
          | Some l \<Rightarrow> s2\<lparr>linter := Some (linter_setIdeRules (linterRules st) l)\<rparr>))"

subsection \<open>The asynchronous server module (second part of linter/solhint.ts)\<close>

definition fileOf :: "externals \<Rightarrow> document \<Rightarrow> string" where
  "fileOf E document = uriToFilePath E (uri document)"

definition getText :: "server_state \<Rightarrow> document \<Rightarrow> string" where
  "getText s document = contents s (uri document)"

definition lintFile :: "externals \<Rightarrow> server_state \<Rightarrow> document \<Rightarrow> diagnostic list" where
  "lintFile E s document =
     (case linter s of
        None \<Rightarrow> []
      | Some l \<Rightarrow> linter_validate E l (fileOf E document) (getText s document))"

text \<open>
  \<open>mergeErrors(...errors)\<close>: \<open>filter\<close> keeps the arguments that are neither \<open>null\<close> nor
  empty, \<open>reduce\<close> appends them from the left, starting from \<open>[]\<close>.
\<close>

definition mergeErrors :: "'a list option list \<Rightarrow> 'a list" where
  "mergeErrors errors =
     foldl (\<lambda>prev curErrors. prev @ (case curErrors of Some es \<Rightarrow> es | None \<Rightarrow> []))
       []
       (filter (\<lambda>i. case i of Some es \<Rightarrow> length es > 0 | None \<Rightarrow> False) errors)"

definition sendDiagnostics ::
  "string \<Rightarrow> diagnostic list option list \<Rightarrow> server_state \<Rightarrow> server_state" where
  "sendDiagnostics uri' diagnosticsList s =
     (let diagnostics = mergeErrors diagnosticsList
      in s\<lparr>sent := sent s @ [(uri', diagnostics)]\<rparr>)"

definition lastCompileErrorsOf ::
  "externals \<Rightarrow> server_state \<Rightarrow> document \<Rightarrow> diagnostic list" where
  "lastCompileErrorsOf E s document =
     (case lastCompileErrorsForDocument s (fileOf E document) of
        Some (Some errors) \<Rightarrow> errors
      | Some None \<Rightarrow> []
      | None \<Rightarrow> [])"

definition storeCompileErrors ::
  "externals \<Rightarrow> document \<Rightarrow> diagnostic list option \<Rightarrow> server_state
     \<Rightarrow> diagnostic list option \<times> server_state" where
  "storeCompileErrors E document errors s =
     (let filePath = fileOf E document
      in (errors,
          s\<lparr>lastCompileErrorsForDocument :=
               (lastCompileErrorsForDocument s)(filePath \<mapsto> errors)\<rparr>))"

definition validateFlagToFalse :: "server_state \<Rightarrow> bool \<times> server_state" where
  "validateFlagToFalse s = (False, s\<lparr>validatingDocument := False\<rparr>)"

definition validateAllFlagToFalse :: "server_state \<Rightarrow> bool \<times> server_state" where
  "validateAllFlagToFalse s = (False, s\<lparr>validatingAllDocuments := False\<rparr>)"

definition appendLinterErrors ::
  "externals \<Rightarrow> document \<Rightarrow> diagnostic list option \<Rightarrow> server_state
     \<Rightarrow> diagnostic list option list \<times> server_state" where
  "appendLinterErrors E document errors s = ([errors, Some (lintFile E s document)], s)"

text \<open>
  \<open>p.then(f)\<close> runs \<open>f\<close> on the value of a fulfilled \<open>p\<close> and passes a rejection on;
  \<open>p.then(f, g)\<close> runs \<open>f\<close> on a fulfilment, \<open>g\<close> on a rejection, and is fulfilled with
  what the handler returns.
\<close>

definition then_fulfilled ::
  "('a \<Rightarrow> 's \<Rightarrow> 'b \<times> 's) \<Rightarrow> 'a settled \<times> 's \<Rightarrow> 'b settled \<times> 's" where
  "then_fulfilled f p =
     (case p of
        (Fulfilled a, s) \<Rightarrow> (case f a s of (b, s') \<Rightarrow> (Fulfilled b, s'))
      | (Rejected, s) \<Rightarrow> (Rejected, s))"

definition then_settled ::
  "('a \<Rightarrow> 's \<Rightarrow> 'b \<times> 's) \<Rightarrow> ('s \<Rightarrow> 'b \<times> 's) \<Rightarrow> 'a settled \<times> 's \<Rightarrow> 'b settled \<times> 's" where
  "then_settled f g p =
     (case p of
        (Fulfilled a, s) \<Rightarrow> (case f a s of (b, s') \<Rightarrow> (Fulfilled b, s'))
      | (Rejected, s) \<Rightarrow> (case g s of (b, s') \<Rightarrow> (Fulfilled b, s')))"

text \<open>
  Modelled from the spec: the compiler session of \<open>./solcCompiler\<close>, which is not among
  the sources. Its compile operation returns a promise of diagnostics, which is later
  fulfilled or rejected. \<open>compileFile\<close> hands the path and the current text to it; the
  promise gets the next number and stays in \<open>compiling\<close> until the compiler settles it.
\<close>

definition compileFile :: "externals \<Rightarrow> document \<Rightarrow> server_state \<Rightarrow> nat \<times> server_state" where
  "compileFile E document s =
     (let filePath = fileOf E document;
          code = getText s document;
          n = nextPromise s
      in (n, s\<lparr>compiling := compiling s @
                   [(n, \<lparr>c_document = document, c_filePath = filePath, c_code = code\<rparr>)],
                nextPromise := Suc n\<rparr>))"

text \<open>
  The synchronous part of \<open>validateCompilation\<close>, and the chain of handlers it attaches,
  run when the compilation settles. The handlers of a settled promise run before the next
  notification, timer or settlement is handled, so the whole chain is one step.
\<close>

definition validateCompilation ::
  "externals \<Rightarrow> document \<Rightarrow> server_state \<Rightarrow> promise \<times> server_state" where
  "validateCompilation E document s =
     (if enabledAsYouTypeErrorCheck s
      then (case compileFile E document (s\<lparr>validatingDocument := True\<rparr>) of
              (n, s') \<Rightarrow> (Awaiting n, s'))
      else (Settled (Fulfilled False), s))"

definition validateCompilation_chain ::
  "externals \<Rightarrow> document \<Rightarrow> diagnostic list option settled \<times> server_state
     \<Rightarrow> bool settled \<times> server_state" where
  "validateCompilation_chain E document p =
     then_settled (\<lambda>_. validateFlagToFalse) validateFlagToFalse
       (then_fulfilled (\<lambda>errors s. ((), sendDiagnostics (uri document) errors s))
         (then_fulfilled (appendLinterErrors E document)
           (then_fulfilled (storeCompileErrors E document) p)))"

text \<open>
  \<open>Promise.all\<close>: rejected as soon as one element is rejected, fulfilled once every element
  is fulfilled, pending (\<open>None\<close>) otherwise.
\<close>

fun fulfilled_values :: "promise list \<Rightarrow> bool list option" where
  "fulfilled_values [] = Some []"
| "fulfilled_values (Settled (Fulfilled v) # ps) = map_option ((#) v) (fulfilled_values ps)"
| "fulfilled_values (Settled Rejected # ps) = None"
| "fulfilled_values (Awaiting n # ps) = None"

definition Promise_all :: "promise list \<Rightarrow> bool list settled option" where
  "Promise_all ps =
     (if Settled Rejected \<in> set ps then Some Rejected
      else map_option Fulfilled (fulfilled_values ps))"

text \<open>
  Once a \<open>Promise.all\<close> of \<open>validateAllDocuments\<close> has settled, its
  \<open>.then(validateAllFlagToFalse, validateAllFlagToFalse)\<close> runs and the aggregate is gone.
\<close>

definition settleJoins :: "server_state \<Rightarrow> server_state" where
  "settleJoins s =
     fold (\<lambda>j st. case Promise_all j of
                    None \<Rightarrow> st
                  | Some r \<Rightarrow> snd (then_settled (\<lambda>_. validateAllFlagToFalse)
                                     validateAllFlagToFalse (r, st)))
       (joins s)
       (s\<lparr>joins := filter (\<lambda>j. Promise_all j = None) (joins s)\<rparr>)"

fun validateEach ::
  "externals \<Rightarrow> document list \<Rightarrow> server_state \<Rightarrow> promise list \<times> server_state" where
  "validateEach E [] s = ([], s)"
| "validateEach E (document # rest) s =
     (case validateCompilation E document s of
        (p, s1) \<Rightarrow> (case validateEach E rest s1 of (ps, s2) \<Rightarrow> (p # ps, s2)))"

definition validateAllDocuments :: "externals \<Rightarrow> server_state \<Rightarrow> server_state" where
  "validateAllDocuments E s =
     (if \<not> validatingAllDocuments s
      then (case validateEach E (documents s) (s\<lparr>validatingAllDocuments := True\<rparr>) of
              (compileResults, s') \<Rightarrow> settleJoins (s'\<lparr>joins := joins s' @ [compileResults]\<rparr>))
      else s)"

text \<open>
  With compile checking on, \<open>startValidation\<close> waits for the promise of
  \<open>intialiseCompiler\<close> of the compiler session and validates when it is fulfilled.
\<close>

definition startValidation :: "externals \<Rightarrow> server_state \<Rightarrow> server_state" where
  "startValidation E s =
     (if enabledAsYouTypeErrorCheck s
      then s\<lparr>initialising := Suc (initialising s)\<rparr>
      else validateAllDocuments E s)"

text \<open>The body of the throttled \<open>lintAndSendDiagnostics\<close>.\<close>

definition lintAndSendDiagnostics :: "externals \<Rightarrow> document \<Rightarrow> server_state \<Rightarrow> server_state" where
  "lintAndSendDiagnostics E document s =
     sendDiagnostics (uri document)
       [Some (lintFile E s document), Some (lastCompileErrorsOf E s document)] s"

text \<open>
  Modelled from the spec: \<open>throttle\<close> of \<open>./util\<close>, which is not among the sources. A call
  replaces the pending one, so that the body later runs once, on the latest document.
\<close>

definition throttle_call :: "document \<Rightarrow> server_state \<Rightarrow> server_state" where
  "throttle_call document s = s\<lparr>throttled := Some document\<rparr>"

definition onDidChangeContent :: "document \<Rightarrow> server_state \<Rightarrow> server_state" where
  "onDidChangeContent document s =
     throttle_call document
       (if \<not> validatingDocument s \<and> \<not> validatingAllDocuments s
        then s\<lparr>validatingDocument := True, timers := timers s @ [document]\<rparr>
        else s)"

definition onDidClose :: "document \<Rightarrow> server_state \<Rightarrow> server_state" where
  "onDidClose document s = s\<lparr>sent := sent s @ [(uri document, [])]\<rparr>"

definition onInitialize :: "string \<Rightarrow> server_state \<Rightarrow> server_state" where
  "onInitialize root s =
     (let s1 = s\<lparr>rootPath := root\<rparr>
      in if linter s1 = None then s1\<lparr>linter := Some (new_linter SolhintService None)\<rparr> else s1)"

definition onDidChangeConfiguration ::
  "externals \<Rightarrow> settings \<Rightarrow> server_state \<Rightarrow> server_state" where
  "onDidChangeConfiguration E st s =
     (let s1 = s\<lparr>enabledAsYouTypeErrorCheck := cfg_enabledAsYouTypeCompilationErrorCheck st,
                 linterOption := cfg_linter st,
                 compileUsingLocalVersion := cfg_compileUsingLocalVersion st,
                 compileUsingRemoteVersion := cfg_compileUsingRemoteVersion st,
                 linterDefaultRules := cfg_linterDefaultRules st,
                 validationDelay := cfg_validationDelay st\<rparr>;
          s2 = s1\<lparr>linter := switchLinter (linterOption s1) (linterDefaultRules s1)\<rparr>;
          s3 = (case linter s2 of
                  None \<Rightarrow> s2
                | Some l \<Rightarrow>
                    s2\<lparr>linter := Some (linter_setIdeRules (linterDefaultRules s2) l)\<rparr>)
      in startValidation E s3)"

subsection \<open>Events\<close>

text \<open>
  What can happen to the server: the notifications of the editor, a timer of
  \<open>onDidChangeContent\<close> firing, the throttle letting the lint run, the compiler finishing
  its initialisation, and a compilation settling with its diagnostics or a rejection.
  Before the handlers of a content change or a close run, the document manager of the
  language-server library has recorded the new text and the set of open documents. A
  timer or a settlement that is not pending does nothing.
\<close>

datatype event =
    Initialize string
  | DidChangeContent document string
  | DidClose document
  | TimerFired document
  | ThrottleFired
  | DidChangeConfiguration settings
  | CompilerInitialised
  | CompilerInitFailed
  | CompileSettled nat "diagnostic list option settled"

definition timerFired :: "externals \<Rightarrow> document \<Rightarrow> server_state \<Rightarrow> server_state" where
  "timerFired E document s =
     (if document \<in> set (timers s)
      then snd (validateCompilation E document (s\<lparr>timers := remove1 document (timers s)\<rparr>))
      else s)"

definition throttleFired :: "externals \<Rightarrow> server_state \<Rightarrow> server_state" where
  "throttleFired E s =
     (case throttled s of
        None \<Rightarrow> s
      | Some document \<Rightarrow> lintAndSendDiagnostics E document (s\<lparr>throttled := None\<rparr>))"

definition compilerInitialised :: "externals \<Rightarrow> server_state \<Rightarrow> server_state" where
  "compilerInitialised E s =
     (if initialising s = 0 then s
      else validateAllDocuments E (s\<lparr>initialising := initialising s - 1\<rparr>))"

definition resolve :: "nat \<Rightarrow> bool settled \<Rightarrow> promise \<Rightarrow> promise" where
  "resolve n r p = (if p = Awaiting n then Settled r else p)"

definition compileSettled ::
  "externals \<Rightarrow> nat \<Rightarrow> diagnostic list option settled \<Rightarrow> server_state \<Rightarrow> server_state" where
  "compileSettled E n outcome s =
     (case map_of (compiling s) n of
        None \<Rightarrow> s
      | Some c \<Rightarrow>
          (case validateCompilation_chain E (c_document c)
                  (outcome, s\<lparr>compiling := filter (\<lambda>p. fst p \<noteq> n) (compiling s)\<rparr>) of
             (r, s') \<Rightarrow> settleJoins (s'\<lparr>joins := map (map (resolve n r)) (joins s')\<rparr>)))"

fun step :: "externals \<Rightarrow> event \<Rightarrow> server_state \<Rightarrow> server_state" where
  "step E (Initialize root) s = onInitialize root s"
| "step E (DidChangeContent document text) s =
     onDidChangeContent document
       (s\<lparr>documents := (if document \<in> set (documents s) then documents s
                         else documents s @ [document]),
          contents := (contents s)(uri document := text)\<rparr>)"
| "step E (DidClose document) s =
     onDidClose document (s\<lparr>documents := removeAll document (documents s)\<rparr>)"
| "step E (TimerFired document) s = timerFired E document s"
| "step E ThrottleFired s = throttleFired E s"
| "step E (DidChangeConfiguration st) s = onDidChangeConfiguration E st s"
| "step E CompilerInitialised s = compilerInitialised E s"
| "step E CompilerInitFailed s = s\<lparr>initialising := initialising s - 1\<rparr>"
| "step E (CompileSettled n outcome) s = compileSettled E n outcome s"

definition run :: "externals \<Rightarrow> event list \<Rightarrow> server_state \<Rightarrow> server_state" where
  "run E evs s = fold (step E) evs s"

subsection \<open>Notions used in the statements\<close>

text \<open>What an argument of \<open>mergeErrors\<close> stands for: its elements, none for \<open>null\<close>.\<close>

definition elements :: "'a list option \<Rightarrow> 'a list" where
  "elements i = (case i of Some es \<Rightarrow> es | None \<Rightarrow> [])"

text \<open>The numbers of the compilations in flight.\<close>

definition running :: "server_state \<Rightarrow> nat list" where
  "running s = map fst (compiling s)"

text \<open>
  The invariant of the workspace guard: the flag is set exactly while an aggregate is
  pending, there is at most one, it is still pending, it waits only for compilations in
  flight, and every number in flight has been handed out.
\<close>

definition guard_inv :: "server_state \<Rightarrow> bool" where
  "guard_inv s \<longleftrightarrow>
     (validatingAllDocuments s \<longleftrightarrow> joins s \<noteq> []) \<and>
     length (joins s) \<le> 1 \<and>
     (\<forall>j \<in> set (joins s). Promise_all j = None \<and>
        (\<forall>n. Awaiting n \<in> set j \<longrightarrow> n \<in> set (running s))) \<and>
     (\<forall>n \<in> set (running s). n < nextPromise s)"

text \<open>
  The compilations \<open>P\<close> of one pass are tracked: each has been handed out, and while it is
  in flight a pending aggregate waits for it.
\<close>

definition tracked :: "nat set \<Rightarrow> server_state \<Rightarrow> bool" where
  "tracked P s \<longleftrightarrow>
     (\<forall>n \<in> P. n < nextPromise s \<and>
        (n \<in> set (running s) \<longrightarrow> (\<exists>j \<in> set (joins s). Awaiting n \<in> set j)))"

subsection \<open>Example inputs\<close>

definition ex_compile_diag :: diagnostic where
  "ex_compile_diag =
     \<lparr>message = ''ParserError: Expected pragma'', severity = Error,
      range = \<lparr>start = \<lparr>line = 0, character = 0\<rparr>, end = \<lparr>line = 0, character = 1\<rparr>\<rparr>\<rparr>"

definition ex_lint_diag :: diagnostic where
  "ex_lint_diag =
     \<lparr>message = ''Line too long [max-line-length]'', severity = Warning,
      range = \<lparr>start = \<lparr>line = 2, character = 0\<rparr>, end = \<lparr>line = 2, character = 1\<rparr>\<rparr>\<rparr>"

text \<open>An environment: \<open>file://\<close> URIs, and a linter that always reports one finding.\<close>

definition ex_externals :: externals where
  "ex_externals =
     \<lparr>uriToFilePath = drop 7, linter_validate = (\<lambda>l filePath text. [ex_lint_diag])\<rparr>"

definition ex_document :: document where
  "ex_document = Document ''file:///a.sol''"

definition ex_document2 :: document where
  "ex_document2 = Document ''file:///b.sol''"

definition ex_settings :: settings where
  "ex_settings =
     \<lparr>cfg_enabledSolium = False, cfg_linter = LStr ''solhint'',
      cfg_enabledAsYouTypeCompilationErrorCheck = True,
      cfg_compileUsingLocalVersion = [], cfg_compileUsingRemoteVersion = [],
      cfg_soliumRules = None, cfg_linterDefaultRules = Some (JObj []),
      cfg_validationDelay = 1500\<rparr>"

definition ex_legacy_settings :: settings where
  "ex_legacy_settings = ex_settings\<lparr>cfg_enabledSolium := True\<rparr>"

text \<open>
  The server starts, compile checking is switched on and the compiler gets ready; a
  document is opened and linted, its timer fires and the compiler reports one error.
\<close>

definition ex_compiled :: "event list" where
  "ex_compiled =
     [Initialize ''/ws'',
      DidChangeConfiguration ex_settings,
      CompilerInitialised,
      DidChangeContent ex_document ''contract A {}'',
      ThrottleFired,
      TimerFired ex_document,
      CompileSettled 0 (Fulfilled (Some [ex_compile_diag]))]"

text \<open>... then the document is edited and the throttled lint runs.\<close>

definition ex_relinted :: "event list" where
  "ex_relinted =
     ex_compiled @ [DidChangeContent ex_document ''contract A { }'', ThrottleFired]"

text \<open>... or the document is closed.\<close>

definition ex_closed :: "event list" where
  "ex_closed = ex_compiled @ [DidClose ex_document]"

text \<open>... and opened again, and the throttled lint runs.\<close>

definition ex_reopened :: "event list" where
  "ex_reopened =
     ex_closed @ [DidChangeContent ex_document ''contract A {}'', ThrottleFired]"

text \<open>... or the document is edited, compiled again, and this time the compiler rejects.\<close>

definition ex_recompiling :: "event list" where
  "ex_recompiling =
     ex_compiled @
     [DidChangeContent ex_document ''contract'', ThrottleFired, TimerFired ex_document]"

definition ex_failed :: "event list" where
  "ex_failed = ex_recompiling @ [CompileSettled 1 Rejected]"

text \<open>... or compile checking is switched off and the document is edited.\<close>

definition ex_settings_off :: settings where
  "ex_settings_off = ex_settings\<lparr>cfg_enabledAsYouTypeCompilationErrorCheck := False\<rparr>"

definition ex_disabled :: "event list" where
  "ex_disabled =
     ex_compiled @
     [DidChangeConfiguration ex_settings_off,
      DidChangeContent ex_document ''contract A { }'', ThrottleFired]"

text \<open>Two documents are open when compile checking is switched on.\<close>

definition ex_two_open :: "event list" where
  "ex_two_open =
     [Initialize ''/ws'',
      DidChangeContent ex_document ''contract A {}'',
      ThrottleFired,
      DidChangeContent ex_document2 ''contract B {}'',
      ThrottleFired,
      DidChangeConfiguration ex_settings]"

text \<open>The three rule layers \<open>{a: false}\<close>, \<open>{a: true, b: true}\<close> and \<open>{b: false}\<close>.\<close>

definition ex_config :: validation_config where
  "ex_config =
     \<lparr>DEFAULT_RULES = [(''a'', JBool False)],
      ideRules = JObj [(''a'', JBool True), (''b'', JBool True)],
      fileConfig = JObj [(''rules'', JObj [(''b'', JBool False)])]\<rparr>"

definition ex_built :: json where
  "ex_built = JObj [(''rules'', JObj [(''a'', JBool True), (''b'', JBool False)])]"

definition ex_config_after :: validation_config where
  "ex_config_after =
     ex_config\<lparr>DEFAULT_RULES := [(''a'', JBool True), (''b'', JBool False)]\<rparr>"

text \<open>
  A reader of the four shortest JSON documents. It stands for \<open>JSON.parse\<close> on the texts
  of the examples: \<open>{\<close> alone is not JSON.
\<close>

definition ex_JSON_parse :: "string \<Rightarrow> js_error + json" where
  "ex_JSON_parse data =
     (if data = ''null'' then Inr JNull
      else if data = ''{}'' then Inr (JObj [])
      else if data = ''true'' then Inr (JBool True)
      else if data = ''false'' then Inr (JBool False)
      else Inl SyntaxError)"

definition ex_messages :: "lint_error list" where
  "ex_messages =
     [\<lparr>e_message = ''Line too long'', e_ruleId = ''max-line-length'', e_severity = 3,
       e_line = 3, e_column = 1\<rparr>,
      \<lparr>e_message = ''Compiler version must be fixed'', e_ruleId = ''compiler-fixed'',
       e_severity = 2, e_line = 1, e_column = 17\<rparr>]"

definition ex_processStr :: "string \<Rightarrow> json \<Rightarrow> lint_error list" where
  "ex_processStr text cfg = ex_messages"

section \<open>Evaluation\<close>

lemmas solhint_defs =
  build_def Object_assign_def assignFrom_def setIdeRules_def readFileConfig_def
  EMPTY_CONFIG_def onConfigLoaded_def SolhintService_validate_def toDiagnostic_def
  severity_of_def rangeOf_def new_ValidationConfig_def initial_DEFAULT_RULES_def Let_def

lemmas server_defs =
  run_def server_initial_def onDidChangeConfiguration_def startValidation_def
  switchLinter_def new_linter_def linter_setIdeRules_def onDidChangeContent_def
  throttle_call_def timerFired_def validateCompilation_def compileFile_def fileOf_def
  getText_def compileSettled_def validateCompilation_chain_def then_settled_def
  then_fulfilled_def storeCompileErrors_def appendLinterErrors_def lintFile_def
  sendDiagnostics_def mergeErrors_def validateFlagToFalse_def validateAllFlagToFalse_def
  settleJoins_def onDidClose_def throttleFired_def lintAndSendDiagnostics_def
  lastCompileErrorsOf_def validateAllDocuments_def compilerInitialised_def
  Promise_all_def resolve_def running_def onInitialize_def Let_def

lemmas ex_defs =
  ex_compiled_def ex_relinted_def ex_closed_def ex_reopened_def ex_recompiling_def
  ex_failed_def ex_disabled_def ex_two_open_def ex_settings_def ex_settings_off_def
  ex_legacy_settings_def ex_externals_def ex_document_def ex_document2_def

section \<open>The linter service: diagnostics and rule layers\<close>

text \<open>
  C10: when the configuration can be built, \<open>validate\<close> returns one diagnostic for every
  message of the engine, in the engine's order; its message is the engine message followed
  by the rule id in square brackets, its severity is \<open>Warning\<close> exactly for engine severity
  3 and \<open>Error\<close> otherwise, and its range starts at line and column minus one and ends one
  character further on the same line.
\<close>

theorem SolhintService_validate_diagnostics:
  "build c = Inr (cfg, c') \<Longrightarrow>
     SolhintService_validate processStr c filePath text =
       Inr (map toDiagnostic (processStr text cfg), c') \<and>
     (\<forall>e \<in> set (processStr text cfg).
        message (toDiagnostic e) = e_message e @ '' ['' @ e_ruleId e @ '']'' \<and>
        (severity (toDiagnostic e) = Warning \<longleftrightarrow> e_severity e = 3) \<and>
        (severity (toDiagnostic e) = Error \<longleftrightarrow> e_severity e \<noteq> 3) \<and>
        line (start (range (toDiagnostic e))) = e_line e - 1 \<and>
        character (start (range (toDiagnostic e))) = e_column e - 1 \<and>
        line (end (range (toDiagnostic e))) = e_line e - 1 \<and>
        character (end (range (toDiagnostic e))) = e_column e - 1 + 1)"
  by (simp add: SolhintService_validate_def toDiagnostic_def severity_of_def rangeOf_def Let_def)

theorem SolhintService_validate_diagnostics_witness:
  "SolhintService_validate ex_processStr ex_config ''/a.sol'' ''contract A {}'' =
     Inr ([\<lparr>message = ''Line too long [max-line-length]'', severity = Warning,
            range = \<lparr>start = \<lparr>line = 2, character = 0\<rparr>,
                     end = \<lparr>line = 2, character = 1\<rparr>\<rparr>\<rparr>,
           \<lparr>message = ''Compiler version must be fixed [compiler-fixed]'', severity = Error,
            range = \<lparr>start = \<lparr>line = 0, character = 16\<rparr>,
                     end = \<lparr>line = 0, character = 17\<rparr>\<rparr>\<rparr>],
          ex_config_after)"
proof -
  have "build ex_config = Inr (ex_built, ex_config_after)"
    by (simp add: solhint_defs ex_config_def ex_built_def ex_config_after_def)
  from SolhintService_validate_diagnostics
         [OF this, of ex_processStr "''/a.sol''" "''contract A {}''"]
  show ?thesis
    by (simp add: ex_processStr_def ex_messages_def toDiagnostic_def severity_of_def
        rangeOf_def)
qed

text \<open>\<open>build\<close> throws only when the file configuration is \<open>null\<close>.\<close>

lemma build_succeeds:
  "fileConfig c \<noteq> JNull \<Longrightarrow> \<exists>cfg c'. build c = Inr (cfg, c')"
  by (cases "fileConfig c") (simp_all add: build_def Let_def)

text \<open>
  One call of \<open>build\<close> on object layers gives a file rule precedence over an IDE rule and
  an IDE rule precedence over what \<open>DEFAULT_RULES\<close> holds at the time of the call.
\<close>

lemma map_of_fold_update:
  "map_of (fold (\<lambda>kv t. AList.update (fst kv) (snd kv) t) kvs t) k =
     (case map_of (rev kvs) k of Some v \<Rightarrow> Some v | None \<Rightarrow> map_of t k)"
proof (induction kvs arbitrary: t)
  case Nil
  show ?case by simp
next
  case (Cons kv kvs)
  show ?case
    by (cases kv) (auto simp: Cons.IH update_conv' map_add_def split: option.split)
qed

lemma build_precedence:
  assumes "ideRules c = JObj ide" "fileConfig c = JObj [(''rules'', JObj file)]"
  shows "case build c of
           Inl e \<Rightarrow> False
         | Inr (cfg, c') \<Rightarrow>
             cfg = JObj [(''rules'', JObj (DEFAULT_RULES c'))] \<and>
             (\<forall>k. map_of (DEFAULT_RULES c') k =
                (case map_of (rev file) k of
                   Some v \<Rightarrow> Some v
                 | None \<Rightarrow> (case map_of (rev ide) k of
                              Some v \<Rightarrow> Some v
                            | None \<Rightarrow> map_of (DEFAULT_RULES c) k)))"
  using assms
  by (simp add: build_def Object_assign_def assignFrom_def map_of_fold_update Let_def
      cong: option.case_cong)

text \<open>
  C4: the three layers \<open>{a: false}\<close>, \<open>{a: true, b: true}\<close>, \<open>{b: false}\<close> build
  \<open>{a: true, b: false}\<close>. The call has written this result into \<open>DEFAULT_RULES\<close>: after
  the IDE rules are replaced by \<open>{}\<close> and the file layer is reset to \<open>{rules: {}}\<close>, the
  next \<open>build\<close> returns \<open>{a: true, b: false}\<close> again, where the same two layers over the
  untouched defaults build \<open>{a: false}\<close>.
\<close>

theorem build_keeps_earlier_rules:
  "build ex_config = Inr (ex_built, ex_config_after) \<and>
   build (readFileConfig (setIdeRules (Some (JObj [])) ex_config_after))
     = Inr (ex_built, readFileConfig (setIdeRules (Some (JObj [])) ex_config_after)) \<and>
   build (readFileConfig (setIdeRules (Some (JObj [])) ex_config))
     = Inr (JObj [(''rules'', JObj [(''a'', JBool False)])],
            readFileConfig (setIdeRules (Some (JObj [])) ex_config))"
  by (simp add: solhint_defs ex_config_def ex_built_def ex_config_after_def)

text \<open>
  A read that fails (the file is absent) stores \<open>false\<close>, and \<open>build\<close> then returns what it
  returns for \<open>{rules: {}}\<close>.
\<close>

lemma absent_file_no_rules:
  "onConfigLoaded JSON_parse (Some e) data c = Inr (c\<lparr>fileConfig := JBool False\<rparr>) \<and>
   build (c\<lparr>fileConfig := JBool False\<rparr>) =
     map_sum id (\<lambda>(cfg, c'). (cfg, c'\<lparr>fileConfig := JBool False\<rparr>))
       (build (c\<lparr>fileConfig := EMPTY_CONFIG\<rparr>))"
  by (simp add: solhint_defs)

text \<open>
  C7: when the file was read but \<open>JSON.parse\<close> throws on its text, \<open>onConfigLoaded\<close> throws
  the same error: the failure leaves the configuration resolver.
\<close>

theorem unparsable_file_throws:
  "JSON_parse data = Inl e \<Longrightarrow> onConfigLoaded JSON_parse None data c = Inl e"
  by (simp add: onConfigLoaded_def)

theorem unparsable_file_throws_witness:
  "onConfigLoaded ex_JSON_parse None ''{'' (new_ValidationConfig initial_DEFAULT_RULES None)
     = Inl SyntaxError"
proof -
  have "ex_JSON_parse ''{'' = Inl SyntaxError"
    by (simp add: ex_JSON_parse_def)
  with unparsable_file_throws [of ex_JSON_parse "''{''" SyntaxError]
  show ?thesis by simp
qed

section \<open>Merging diagnostics\<close>

lemma foldl_append_concat:
  "foldl (\<lambda>prev cur. prev @ f cur) acc xs = acc @ concat (map f xs)"
  by (induction xs arbitrary: acc) simp_all

lemma concat_map_filter_nonempty:
  "concat (map f (filter (\<lambda>i. f i \<noteq> []) xs)) = concat (map f xs)"
  by (induction xs) simp_all

lemma mergeErrors_concat: "mergeErrors errors = concat (map elements errors)"
proof -
  have p: "(\<lambda>i. case i of Some es \<Rightarrow> length es > 0 | None \<Rightarrow> False) =
           (\<lambda>i::'a list option. elements i \<noteq> [])"
    by (rule ext) (simp add: elements_def split: option.split)
  have f: "(\<lambda>prev cur. prev @ (case cur of Some es \<Rightarrow> es | None \<Rightarrow> [])) =
           (\<lambda>prev (cur::'a list option). prev @ elements cur)"
    by (simp add: elements_def)
  show ?thesis
    unfolding mergeErrors_def p f
    by (simp add: foldl_append_concat concat_map_filter_nonempty)
qed

text \<open>
  C8: \<open>mergeErrors\<close> returns the concatenation, in argument order, of the arguments that
  are neither \<open>null\<close> nor empty; equal argument lists give equal results.
\<close>

theorem mergeErrors_filters_and_concatenates:
  "mergeErrors errors =
     concat (map the (filter (\<lambda>i. i \<noteq> None \<and> i \<noteq> Some []) errors)) \<and>
   (\<forall>errors'. errors' = errors \<longrightarrow> mergeErrors errors' = mergeErrors errors)"
proof -
  have "concat (map elements xs)
        = concat (map the (filter (\<lambda>i. i \<noteq> None \<and> i \<noteq> Some []) xs))"
    for xs :: "'a list option list"
    by (induction xs) (auto simp: elements_def)
  then show ?thesis by (simp add: mergeErrors_concat)
qed

theorem mergeErrors_filters_and_concatenates_witness:
  "mergeErrors [Some [ex_compile_diag], None, Some [], Some [ex_lint_diag, ex_compile_diag]]
     = [ex_compile_diag, ex_lint_diag, ex_compile_diag]"
  using mergeErrors_filters_and_concatenates
          [of "[Some [ex_compile_diag], None, Some [], Some [ex_lint_diag, ex_compile_diag]]"]
  by simp

section \<open>Linter selection (server.ts)\<close>

text \<open>
  C9: whenever the legacy flag \<open>enabledSolium\<close> is set, the linter chosen is solium,
  whatever the \<open>linter\<close> option says; when it is not set, \<open>linterName\<close> is the \<open>linter\<close>
  option and the choice depends on that option alone.
\<close>

theorem linter_selection:
  "(cfg_enabledSolium st \<longrightarrow>
      map_option service (linter (server_applySettings st s)) = Some SoliumService) \<and>
   (\<not> cfg_enabledSolium st \<longrightarrow>
      linterName st = cfg_linter st \<and>
      map_option service (linter (server_applySettings st s)) =
        (if cfg_linter st = LStr ''solhint'' then Some SolhintService
         else if cfg_linter st = LStr ''solium'' then Some SoliumService
         else None))"
  by (simp add: server_applySettings_def linterName_def switchLinter_def new_linter_def
      linter_setIdeRules_def Let_def)

theorem linter_selection_witness:
  "map_option service (linter (server_applySettings ex_legacy_settings server_initial))
     = Some SoliumService \<and>
   map_option service (linter (server_applySettings ex_settings server_initial))
     = Some SolhintService"
proof -
  have "cfg_enabledSolium ex_legacy_settings" "\<not> cfg_enabledSolium ex_settings"
    "cfg_linter ex_settings = LStr ''solhint''"
    by (simp_all add: ex_legacy_settings_def ex_settings_def)
  with linter_selection [of ex_legacy_settings server_initial]
    linter_selection [of ex_settings server_initial]
  show ?thesis by simp
qed

section \<open>The asynchronous server: publishing and the cache\<close>

text \<open>
  C6: with as-you-type compile checking off, \<open>validateCompilation\<close> returns an already
  fulfilled promise and the state it was called in: no compilation is started and the
  cache is the same, also when the call comes from a timer.
\<close>

theorem validateCompilation_disabled:
  "\<not> enabledAsYouTypeErrorCheck s \<Longrightarrow>
     validateCompilation E document s = (Settled (Fulfilled False), s) \<and>
     compiling (step E (TimerFired document) s) = compiling s \<and>
     lastCompileErrorsForDocument (step E (TimerFired document) s) =
       lastCompileErrorsForDocument s"
  by (simp add: validateCompilation_def timerFired_def)

theorem validateCompilation_disabled_witness:
  "validateCompilation ex_externals ex_document (run ex_externals ex_disabled server_initial)
     = (Settled (Fulfilled False), run ex_externals ex_disabled server_initial) \<and>
   compiling (step ex_externals (TimerFired ex_document)
               (run ex_externals ex_disabled server_initial)) = [] \<and>
   lastCompileErrorsForDocument
     (step ex_externals (TimerFired ex_document)
       (run ex_externals ex_disabled server_initial)) ''/a.sol''
     = Some (Some [ex_compile_diag])"
proof -
  let ?s = "run ex_externals ex_disabled server_initial"
  have d: "\<not> enabledAsYouTypeErrorCheck ?s"
    by (simp add: server_defs ex_defs)
  have v: "compiling ?s = []"
    "lastCompileErrorsForDocument ?s ''/a.sol'' = Some (Some [ex_compile_diag])"
    by (simp_all add: server_defs ex_defs)
  from validateCompilation_disabled [OF d, of ex_externals ex_document] v
  show ?thesis by simp
qed

subsection \<open>Settling aggregates\<close>

lemma fulfilled_values_None:
  "fulfilled_values ps = None \<longleftrightarrow>
     (Settled Rejected \<in> set ps \<or> (\<exists>n. Awaiting n \<in> set ps))"
  by (induction ps rule: fulfilled_values.induct) auto

lemma Promise_all_None:
  "Promise_all ps = None \<longleftrightarrow> Settled Rejected \<notin> set ps \<and> (\<exists>n. Awaiting n \<in> set ps)"
  by (auto simp: Promise_all_def fulfilled_values_None)

lemma fold_settle:
  "fold (\<lambda>j st. case Promise_all j of
                    None \<Rightarrow> st
                  | Some r \<Rightarrow> snd (then_settled (\<lambda>_. validateAllFlagToFalse)
                                     validateAllFlagToFalse (r, st))) js st
   = (if \<forall>j \<in> set js. Promise_all j = None then st
      else st\<lparr>validatingAllDocuments := False\<rparr>)"
proof (induction js arbitrary: st)
  case Nil
  show ?case by simp
next
  case (Cons j js)
  show ?case
  proof (cases "Promise_all j")
    case None
    then show ?thesis by (simp add: Cons.IH)
  next
    case (Some r)
    then show ?thesis
      by (cases r) (simp_all add: Cons.IH then_settled_def validateAllFlagToFalse_def)
  qed
qed

lemma settleJoins_eq:
  "settleJoins s =
     (if \<forall>j \<in> set (joins s). Promise_all j = None then s
      else s\<lparr>joins := filter (\<lambda>j. Promise_all j = None) (joins s),
             validatingAllDocuments := False\<rparr>)"
proof -
  have "filter (\<lambda>j. Promise_all j = None) (joins s) = joins s"
    if "\<forall>j \<in> set (joins s). Promise_all j = None"
    using that by (simp add: filter_id_conv)
  then show ?thesis
    unfolding settleJoins_def fold_settle by simp
qed

lemma settleJoins_fields:
  "joins (settleJoins s) = filter (\<lambda>j. Promise_all j = None) (joins s)"
  "validatingAllDocuments (settleJoins s) =
     (validatingAllDocuments s \<and> (\<forall>j \<in> set (joins s). Promise_all j = None))"
  "compiling (settleJoins s) = compiling s"
  "nextPromise (settleJoins s) = nextPromise s"
  by (auto simp: settleJoins_eq filter_id_conv)

lemma settleJoins_frame:
  "sent (settleJoins s) = sent s"
  "lastCompileErrorsForDocument (settleJoins s) = lastCompileErrorsForDocument s"
  "validatingDocument (settleJoins s) = validatingDocument s"
  by (simp_all add: settleJoins_eq)

lemma running_settleJoins: "running (settleJoins s) = running s"
  by (simp add: running_def settleJoins_fields)

subsection \<open>What is published\<close>

text \<open>
  C1 as stated fails: after a compilation has cached \<open>[ex_compile_diag]\<close>, the throttled
  lint pass finds \<open>[ex_lint_diag]\<close> and publishes the lint entry first (the third
  publish below).
\<close>

theorem publish_order_counterexample:
  "lastCompileErrorsOf ex_externals (run ex_externals ex_relinted server_initial) ex_document
     = [ex_compile_diag] \<and>
   lintFile ex_externals (run ex_externals ex_relinted server_initial) ex_document
     = [ex_lint_diag] \<and>
   sent (run ex_externals ex_relinted server_initial)
     = [(''file:///a.sol'', [ex_lint_diag]),
        (''file:///a.sol'', [ex_compile_diag, ex_lint_diag]),
        (''file:///a.sol'', [ex_lint_diag, ex_compile_diag])] \<and>
   [ex_lint_diag, ex_compile_diag] \<noteq> [ex_compile_diag, ex_lint_diag]"
  by (simp add: server_defs ex_defs) (simp add: ex_lint_diag_def ex_compile_diag_def)

text \<open>
  C1, amended: when a compilation is fulfilled with the list \<open>C\<close>, the publish that ends
  the \<open>validateCompilation\<close> cycle sends exactly \<open>C\<close> followed by the fresh lint list, and
  \<open>C\<close> is then the cached list of the document; the publish of the throttled lint pass
  sends exactly the fresh lint list followed by the cached compile list.
\<close>

theorem publish_order:
  "(map_of (compiling s) n = Some c \<longrightarrow>
      sent (step E (CompileSettled n (Fulfilled (Some C))) s) =
        sent s @ [(uri (c_document c), C @ lintFile E s (c_document c))] \<and>
      lastCompileErrorsOf E (step E (CompileSettled n (Fulfilled (Some C))) s)
        (c_document c) = C) \<and>
   (throttled s = Some d \<longrightarrow>
      sent (step E ThrottleFired s) =
        sent s @ [(uri d, lintFile E s d @ lastCompileErrorsOf E s d)])"
proof (intro conjI impI)
  assume c: "map_of (compiling s) n = Some c"
  let ?s0 = "s\<lparr>compiling := filter (\<lambda>p. fst p \<noteq> n) (compiling s)\<rparr>"
  let ?s1 = "?s0\<lparr>lastCompileErrorsForDocument :=
                (lastCompileErrorsForDocument ?s0)(fileOf E (c_document c) \<mapsto> Some C)\<rparr>"
  have ch: "validateCompilation_chain E (c_document c) (Fulfilled (Some C), ?s0) =
          (Fulfilled False,
           ?s1\<lparr>sent := sent s @ [(uri (c_document c), C @ lintFile E s (c_document c))],
                validatingDocument := False\<rparr>)"
    by (simp add: validateCompilation_chain_def then_settled_def then_fulfilled_def
        storeCompileErrors_def appendLinterErrors_def sendDiagnostics_def
        validateFlagToFalse_def Let_def mergeErrors_concat elements_def
        lintFile_def getText_def cong: option.case_cong)
  show "sent (step E (CompileSettled n (Fulfilled (Some C))) s) =
        sent s @ [(uri (c_document c), C @ lintFile E s (c_document c))]"
    using c by (simp add: compileSettled_def ch settleJoins_frame)
  show "lastCompileErrorsOf E (step E (CompileSettled n (Fulfilled (Some C))) s)
          (c_document c) = C"
    using c by (simp add: compileSettled_def ch settleJoins_frame lastCompileErrorsOf_def)
next
  assume t: "throttled s = Some d"
  have "lintFile E (s\<lparr>throttled := None\<rparr>) d = lintFile E s d"
    by (simp add: lintFile_def getText_def cong: option.case_cong)
  then show "sent (step E ThrottleFired s) =
        sent s @ [(uri d, lintFile E s d @ lastCompileErrorsOf E s d)]"
    using t by (simp add: throttleFired_def lintAndSendDiagnostics_def sendDiagnostics_def
        mergeErrors_concat elements_def lastCompileErrorsOf_def)
qed

theorem publish_order_witness:
  "sent (step ex_externals (CompileSettled 1 (Fulfilled (Some [ex_compile_diag])))
          (run ex_externals ex_recompiling server_initial))
     = [(''file:///a.sol'', [ex_lint_diag]),
        (''file:///a.sol'', [ex_compile_diag, ex_lint_diag]),
        (''file:///a.sol'', [ex_lint_diag, ex_compile_diag]),
        (''file:///a.sol'', [ex_compile_diag, ex_lint_diag])] \<and>
   sent (step ex_externals ThrottleFired
          (run ex_externals (butlast ex_relinted) server_initial))
     = [(''file:///a.sol'', [ex_lint_diag]),
        (''file:///a.sol'', [ex_compile_diag, ex_lint_diag]),
        (''file:///a.sol'', [ex_lint_diag, ex_compile_diag])]"
proof -
  let ?s = "run ex_externals ex_recompiling server_initial"
  let ?t = "run ex_externals (butlast ex_relinted) server_initial"
  have c: "map_of (compiling ?s) 1 =
     Some \<lparr>c_document = ex_document, c_filePath = ''/a.sol'', c_code = ''contract''\<rparr>"
    by (simp add: server_defs ex_defs)
  have t: "throttled ?t = Some ex_document"
    by (simp add: server_defs ex_defs)
  have v: "sent ?s = [(''file:///a.sol'', [ex_lint_diag]), (''file:///a.sol'', [ex_compile_diag, ex_lint_diag]),
                      (''file:///a.sol'', [ex_lint_diag, ex_compile_diag])]"
    "sent ?t = [(''file:///a.sol'', [ex_lint_diag]), (''file:///a.sol'', [ex_compile_diag, ex_lint_diag])]"
    "lintFile ex_externals ?s ex_document = [ex_lint_diag]"
    "lintFile ex_externals ?t ex_document = [ex_lint_diag]"
    "lastCompileErrorsOf ex_externals ?t ex_document = [ex_compile_diag]"
    by (simp_all add: server_defs ex_defs)
  from publish_order [where s = ?s and n = 1 and E = ex_externals and C = "[ex_compile_diag]"]
    publish_order [where s = ?t and E = ex_externals and d = ex_document] c t v
  show ?thesis by (simp add: ex_document_def)
qed

subsection \<open>A compilation that fails\<close>

text \<open>
  C2 as stated fails: the second compilation of the document is rejected, and the cache
  still holds the error of the first one, not the empty list.
\<close>

theorem compile_failure_counterexample:
  "lastCompileErrorsForDocument (run ex_externals ex_failed server_initial) ''/a.sol''
     = Some (Some [ex_compile_diag]) \<and>
   Some (Some [ex_compile_diag]) \<noteq> Some (Some ([] :: diagnostic list))"
  by (simp add: server_defs ex_defs)

text \<open>
  C2, amended: when the compile operation of a \<open>validateCompilation\<close> cycle rejects, the
  failure is recovered locally: the cache is left as it was (nothing is stored, an earlier
  entry stays), nothing is published, the compilation is no longer in flight and the
  per-document validating guard is cleared.
\<close>

theorem compile_failure:
  "map_of (compiling s) n = Some c \<Longrightarrow>
     lastCompileErrorsForDocument (step E (CompileSettled n Rejected) s) =
       lastCompileErrorsForDocument s \<and>
     sent (step E (CompileSettled n Rejected) s) = sent s \<and>
     \<not> validatingDocument (step E (CompileSettled n Rejected) s) \<and>
     n \<notin> set (running (step E (CompileSettled n Rejected) s))"
  by (simp add: compileSettled_def validateCompilation_chain_def then_settled_def
      then_fulfilled_def validateFlagToFalse_def settleJoins_frame
      running_settleJoins) (auto simp: running_def)

theorem compile_failure_witness:
  "lastCompileErrorsForDocument (run ex_externals ex_failed server_initial) =
     lastCompileErrorsForDocument (run ex_externals ex_recompiling server_initial) \<and>
   sent (run ex_externals ex_failed server_initial) =
     sent (run ex_externals ex_recompiling server_initial) \<and>
   validatingDocument (run ex_externals ex_recompiling server_initial) \<and>
   \<not> validatingDocument (run ex_externals ex_failed server_initial)"
proof -
  let ?s = "run ex_externals ex_recompiling server_initial"
  have c: "map_of (compiling ?s) 1 =
     Some \<lparr>c_document = ex_document, c_filePath = ''/a.sol'', c_code = ''contract''\<rparr>"
    by (simp add: server_defs ex_defs)
  have r: "run ex_externals ex_failed server_initial =
             step ex_externals (CompileSettled 1 Rejected) ?s"
    by (simp add: run_def ex_failed_def)
  have v: "validatingDocument ?s"
    by (simp add: server_defs ex_defs)
  from compile_failure [OF c, of ex_externals] v show ?thesis
    unfolding r by simp
qed

subsection \<open>Closing a document\<close>

text \<open>
  C3 as stated fails: after the document is closed the cache still holds its compile
  error, and the lint pass after re-opening publishes that error again.
\<close>

theorem close_keeps_cache_counterexample:
  "lastCompileErrorsForDocument (run ex_externals ex_closed server_initial)
     (fileOf ex_externals ex_document) = Some (Some [ex_compile_diag]) \<and>
   last (sent (run ex_externals ex_reopened server_initial))
     = (''file:///a.sol'', [ex_lint_diag, ex_compile_diag])"
  by (simp add: server_defs ex_defs)

text \<open>
  C3, amended: handling the document-closed notification publishes an empty diagnostic
  list for the document's URI and leaves the compile-diagnostic cache as it is.
\<close>

theorem close_publishes_empty:
  "sent (step E (DidClose document) s) = sent s @ [(uri document, [])] \<and>
   lastCompileErrorsForDocument (step E (DidClose document) s) =
     lastCompileErrorsForDocument s"
  by (simp add: onDidClose_def)

theorem close_publishes_empty_witness:
  "sent (run ex_externals ex_closed server_initial)
     = [(''file:///a.sol'', [ex_lint_diag]),
        (''file:///a.sol'', [ex_compile_diag, ex_lint_diag]),
        (''file:///a.sol'', [])]"
proof -
  have r: "run ex_externals ex_closed server_initial =
             step ex_externals (DidClose ex_document) (run ex_externals ex_compiled server_initial)"
    by (simp add: run_def ex_closed_def)
  have "sent (run ex_externals ex_compiled server_initial)
          = [(''file:///a.sol'', [ex_lint_diag]), (''file:///a.sol'', [ex_compile_diag, ex_lint_diag])]"
    by (simp add: server_defs ex_defs)
  with close_publishes_empty
         [of ex_externals ex_document "run ex_externals ex_compiled server_initial"]
  show ?thesis unfolding r by (simp add: ex_document_def)
qed

section \<open>The workspace guard\<close>

subsection \<open>What the parts of a pass do to the guard's state\<close>

lemma chain_result:
  "validateCompilation_chain E d (outcome, s) = (r, s') \<Longrightarrow>
     r = Fulfilled False \<and> joins s' = joins s \<and> compiling s' = compiling s \<and>
     nextPromise s' = nextPromise s \<and> validatingAllDocuments s' = validatingAllDocuments s"
  by (cases outcome)
     (auto simp: validateCompilation_chain_def then_settled_def then_fulfilled_def
        validateFlagToFalse_def storeCompileErrors_def appendLinterErrors_def
        sendDiagnostics_def Let_def)

lemma validateCompilation_effect:
  "validateCompilation E d s = (p, s') \<Longrightarrow>
     joins s' = joins s \<and> validatingAllDocuments s' = validatingAllDocuments s \<and>
     enabledAsYouTypeErrorCheck s' = enabledAsYouTypeErrorCheck s \<and>
     (if enabledAsYouTypeErrorCheck s
      then p = Awaiting (nextPromise s) \<and> running s' = running s @ [nextPromise s] \<and>
           nextPromise s' = Suc (nextPromise s)
      else p = Settled (Fulfilled False) \<and> s' = s)"
  by (auto simp: validateCompilation_def compileFile_def running_def Let_def split: if_splits)

lemma upt_shift: "n # [Suc n ..< Suc (n + k)] = [n ..< Suc (n + k)]"
  by (simp add: upt_conv_Cons del: upt_Suc)

lemma map_upt_shift: "f n # map f [Suc n ..< Suc (n + k)] = map f [n ..< Suc (n + k)]"
  by (simp add: upt_conv_Cons del: upt_Suc)

lemma validateEach_effect:
  "validateEach E ds s = (ps, s') \<Longrightarrow>
     joins s' = joins s \<and> validatingAllDocuments s' = validatingAllDocuments s \<and>
     enabledAsYouTypeErrorCheck s' = enabledAsYouTypeErrorCheck s \<and>
     (if enabledAsYouTypeErrorCheck s
      then ps = map Awaiting [nextPromise s ..< nextPromise s + length ds] \<and>
           running s' = running s @ [nextPromise s ..< nextPromise s + length ds] \<and>
           nextPromise s' = nextPromise s + length ds
      else ps = replicate (length ds) (Settled (Fulfilled False)) \<and> s' = s)"
proof (induction ds arbitrary: s ps s')
  case Nil
  then show ?case by auto
next
  case (Cons d ds)
  obtain p s1 where v: "validateCompilation E d s = (p, s1)" by fastforce
  obtain qs s2 where r: "validateEach E ds s1 = (qs, s2)" by fastforce
  from Cons.prems v r have e: "ps = p # qs" "s' = s2" by auto
  note a = validateCompilation_effect [OF v]
  note b = Cons.IH [OF r]
  show ?case
  proof (cases "enabledAsYouTypeErrorCheck s")
    case True
    with a b e show ?thesis
      by (simp add: upt_shift map_upt_shift del: upt_Suc)
  next
    case False
    with a b e show ?thesis by auto
  qed
qed


lemma guard_inv_cong:
  "validatingAllDocuments s' = validatingAllDocuments s \<Longrightarrow> joins s' = joins s \<Longrightarrow>
   compiling s' = compiling s \<Longrightarrow> nextPromise s' = nextPromise s \<Longrightarrow>
   guard_inv s' = guard_inv s"
  by (simp add: guard_inv_def running_def)

lemma tracked_cong:
  "joins s' = joins s \<Longrightarrow> compiling s' = compiling s \<Longrightarrow> nextPromise s' = nextPromise s \<Longrightarrow>
   tracked P s' = tracked P s"
  by (simp add: tracked_def running_def)

lemma Promise_all_awaiting:
  "Promise_all (map Awaiting ns) = None \<longleftrightarrow> ns \<noteq> []"
  by (cases ns) (auto simp: Promise_all_None)

lemma Promise_all_replicate:
  "Promise_all (replicate k (Settled (Fulfilled False))) \<noteq> None"
  by (auto simp: Promise_all_None)

lemma validateAllDocuments_cases:
  assumes "guard_inv s"
  obtains
    (busy) "validatingAllDocuments s" "validateAllDocuments E s = s"
  | (idle) s' where "\<not> validatingAllDocuments s" "joins s = []"
      "validateAllDocuments E s = s'" "joins s' = []" "\<not> validatingAllDocuments s'"
      "running s' = running s" "nextPromise s' = nextPromise s"
  | (started) s' k where "\<not> validatingAllDocuments s" "joins s = []"
      "validateAllDocuments E s = s'" "k > 0"
      "joins s' = [map Awaiting [nextPromise s ..< nextPromise s + k]]"
      "validatingAllDocuments s'"
      "running s' = running s @ [nextPromise s ..< nextPromise s + k]"
      "nextPromise s' = nextPromise s + k"
proof (cases "validatingAllDocuments s")
  case True
  then show ?thesis using busy by (simp add: validateAllDocuments_def)
next
  case False
  with assms have j: "joins s = []" by (simp add: guard_inv_def)
  let ?s0 = "s\<lparr>validatingAllDocuments := True\<rparr>"
  obtain ps s1 where v: "validateEach E (documents s) ?s0 = (ps, s1)" by fastforce
  note e = validateEach_effect [OF v]
  have r: "validateAllDocuments E s = settleJoins (s1\<lparr>joins := [ps]\<rparr>)"
    using False v e j by (simp add: validateAllDocuments_def)
  show ?thesis
  proof (cases "enabledAsYouTypeErrorCheck s \<and> documents s \<noteq> []")
    case True
    then have p: "ps = map Awaiting [nextPromise s ..< nextPromise s + length (documents s)]"
      and q: "running s1 = running s @ [nextPromise s ..< nextPromise s + length (documents s)]"
      and n: "nextPromise s1 = nextPromise s + length (documents s)"
      using e by (simp_all add: running_def)
    from True have pend: "Promise_all ps = None"
      unfolding p by (simp add: Promise_all_awaiting)
    have "settleJoins (s1\<lparr>joins := [ps]\<rparr>) = s1\<lparr>joins := [ps]\<rparr>"
      using pend by (simp add: settleJoins_eq)
    with r have eq: "validateAllDocuments E s = s1\<lparr>joins := [ps]\<rparr>" by simp
    show ?thesis
    proof (rule started [of "s1\<lparr>joins := [ps]\<rparr>" "length (documents s)"])
      show "\<not> validatingAllDocuments s" by fact
      show "joins s = []" by fact
      show "validateAllDocuments E s = s1\<lparr>joins := [ps]\<rparr>" by fact
      show "0 < length (documents s)" using True by simp
      show "joins (s1\<lparr>joins := [ps]\<rparr>) = [map Awaiting [nextPromise s ..< nextPromise s + length (documents s)]]"
        using p by simp
      show "validatingAllDocuments (s1\<lparr>joins := [ps]\<rparr>)" using e by simp
      show "running (s1\<lparr>joins := [ps]\<rparr>) = running s @ [nextPromise s ..< nextPromise s + length (documents s)]"
        using q by (simp add: running_def)
      show "nextPromise (s1\<lparr>joins := [ps]\<rparr>) = nextPromise s + length (documents s)"
        using n by simp
    qed
  next
    case False
    have settled: "Promise_all ps \<noteq> None"
    proof (cases "enabledAsYouTypeErrorCheck s")
      case True
      with False have "documents s = []" by simp
      with True e have "ps = []" by simp
      then show ?thesis by (simp add: Promise_all_None)
    next
      case False
      with e have "ps = replicate (length (documents s)) (Settled (Fulfilled False))" by simp
      then show ?thesis by (simp add: Promise_all_replicate)
    qed
    have same: "running s1 = running s \<and> nextPromise s1 = nextPromise s"
    proof (cases "enabledAsYouTypeErrorCheck s")
      case True
      with False have "documents s = []" by simp
      with True e show ?thesis by (simp add: running_def)
    next
      case False
      with e show ?thesis by (simp add: running_def)
    qed
    show ?thesis
    proof (rule idle [of "settleJoins (s1\<lparr>joins := [ps]\<rparr>)"])
      show "\<not> validatingAllDocuments s" by fact
      show "joins s = []" by fact
      show "validateAllDocuments E s = settleJoins (s1\<lparr>joins := [ps]\<rparr>)" by fact
      show "joins (settleJoins (s1\<lparr>joins := [ps]\<rparr>)) = []"
        using settled by (simp add: settleJoins_fields)
      show "\<not> validatingAllDocuments (settleJoins (s1\<lparr>joins := [ps]\<rparr>))"
        using settled by (simp add: settleJoins_fields)
      show "running (settleJoins (s1\<lparr>joins := [ps]\<rparr>)) = running s"
        using same by (simp add: running_settleJoins) (simp add: running_def)
      show "nextPromise (settleJoins (s1\<lparr>joins := [ps]\<rparr>)) = nextPromise s"
        using same by (simp add: settleJoins_fields)
    qed
  qed
qed

lemma validateAllDocuments_inv:
  assumes "guard_inv s"
  shows "guard_inv (validateAllDocuments E s)"
  using assms
proof (cases rule: validateAllDocuments_cases [where E = E])
  case busy
  with assms show ?thesis by simp
next
  case (idle s')
  with assms show ?thesis by (simp add: guard_inv_def)
next
  case (started s' k)
  with assms show ?thesis
    by (auto simp: guard_inv_def Promise_all_awaiting)
qed

lemma validateAllDocuments_tracked:
  assumes "guard_inv s" "tracked P s"
  shows "tracked P (validateAllDocuments E s)"
  using assms(1)
proof (cases rule: validateAllDocuments_cases [where E = E])
  case busy
  with assms show ?thesis by simp
next
  case (idle s')
  with assms show ?thesis by (simp add: tracked_def)
next
  case (started s' k)
  with assms show ?thesis by (fastforce simp: tracked_def)
qed

lemma validateAllDocuments_tracks_new:
  assumes "guard_inv s"
  shows "tracked {nextPromise s ..< nextPromise (validateAllDocuments E s)} (validateAllDocuments E s)"
  using assms
proof (cases rule: validateAllDocuments_cases [where E = E])
  case busy
  then show ?thesis by (simp add: tracked_def)
next
  case (idle s')
  then show ?thesis by (simp add: tracked_def)
next
  case (started s' k)
  then show ?thesis by (auto simp: tracked_def)
qed


lemma Awaiting_resolve:
  "Awaiting m \<in> resolve n r ` set j \<longleftrightarrow> m \<noteq> n \<and> Awaiting m \<in> set j"
  by (auto simp: resolve_def)

lemma Rejected_resolve:
  "Settled Rejected \<in> resolve n (Fulfilled v) ` set j \<longleftrightarrow> Settled Rejected \<in> set j"
  by (auto simp: resolve_def)

lemma compileSettled_fields:
  assumes "map_of (compiling s) n = Some c"
  shows "joins (compileSettled E n outcome s) =
           filter (\<lambda>j. Promise_all j = None) (map (map (resolve n (Fulfilled False))) (joins s))"
    and "validatingAllDocuments (compileSettled E n outcome s) =
           (validatingAllDocuments s \<and>
            (\<forall>j \<in> set (joins s). Promise_all (map (resolve n (Fulfilled False)) j) = None))"
    and "compiling (compileSettled E n outcome s) = filter (\<lambda>p. fst p \<noteq> n) (compiling s)"
    and "nextPromise (compileSettled E n outcome s) = nextPromise s"
proof -
  let ?s0 = "s\<lparr>compiling := filter (\<lambda>p. fst p \<noteq> n) (compiling s)\<rparr>"
  obtain r s1 where ch: "validateCompilation_chain E (c_document c) (outcome, ?s0) = (r, s1)"
    by fastforce
  note f = chain_result [OF ch]
  have eq: "compileSettled E n outcome s =
              settleJoins (s1\<lparr>joins := map (map (resolve n r)) (joins s1)\<rparr>)"
    using assms ch by (simp add: compileSettled_def)
  show "joins (compileSettled E n outcome s) =
           filter (\<lambda>j. Promise_all j = None) (map (map (resolve n (Fulfilled False))) (joins s))"
    using f by (simp add: eq settleJoins_fields)
  show "validatingAllDocuments (compileSettled E n outcome s) =
           (validatingAllDocuments s \<and>
            (\<forall>j \<in> set (joins s). Promise_all (map (resolve n (Fulfilled False)) j) = None))"
    using f by (simp add: eq settleJoins_fields)
  show "compiling (compileSettled E n outcome s) = filter (\<lambda>p. fst p \<noteq> n) (compiling s)"
    using f by (simp add: eq settleJoins_fields)
  show "nextPromise (compileSettled E n outcome s) = nextPromise s"
    using f by (simp add: eq settleJoins_fields)
qed

lemma running_compileSettled:
  "map_of (compiling s) n = Some c \<Longrightarrow>
     set (running (compileSettled E n outcome s)) = set (running s) - {n}"
  by (auto simp: running_def compileSettled_fields)

lemma compileSettled_inv:
  assumes "guard_inv s"
  shows "guard_inv (compileSettled E n outcome s)"
proof (cases "map_of (compiling s) n")
  case None
  with assms show ?thesis by (simp add: compileSettled_def)
next
  case (Some c)
  note f = compileSettled_fields [OF Some, of E outcome] running_compileSettled [OF Some, of E outcome]
  from assms consider "joins s = []" "\<not> validatingAllDocuments s"
    | j where "joins s = [j]" "validatingAllDocuments s"
    by (cases "joins s") (auto simp: guard_inv_def)
  then show ?thesis
  proof cases
    case 1
    with assms show ?thesis
      unfolding guard_inv_def f by auto
  next
    case (2 j)
    with assms show ?thesis
      unfolding guard_inv_def f
      by (auto simp: Promise_all_None Awaiting_resolve Rejected_resolve)
  qed
qed

lemma compileSettled_tracked:
  assumes "guard_inv s" "tracked P s"
  shows "tracked P (compileSettled E n outcome s)"
proof (cases "map_of (compiling s) n")
  case None
  with assms show ?thesis by (simp add: compileSettled_def)
next
  case (Some c)
  note f = compileSettled_fields [OF Some, of E outcome] running_compileSettled [OF Some, of E outcome]
  show ?thesis
    unfolding tracked_def
  proof (intro ballI conjI impI)
    fix m assume m: "m \<in> P"
    with assms(2) show "m < nextPromise (compileSettled E n outcome s)"
      by (simp add: tracked_def f)
    assume "m \<in> set (running (compileSettled E n outcome s))"
    then have mn: "m \<noteq> n" and mr: "m \<in> set (running s)" by (simp_all add: f)
    with assms(2) m obtain j where j: "j \<in> set (joins s)" "Awaiting m \<in> set j"
      by (auto simp: tracked_def)
    with assms(1) have "Settled Rejected \<notin> set j"
      by (auto simp: guard_inv_def Promise_all_None)
    with j mn have "Promise_all (map (resolve n (Fulfilled False)) j) = None"
      "Awaiting m \<in> set (map (resolve n (Fulfilled False)) j)"
      by (auto simp: Promise_all_None Awaiting_resolve Rejected_resolve)
    with j show "\<exists>j \<in> set (joins (compileSettled E n outcome s)). Awaiting m \<in> set j"
      unfolding f by (intro bexI [of _ "map (resolve n (Fulfilled False)) j"]) auto
  qed
qed

lemma timerFired_fields:
  "joins (timerFired E d s) = joins s"
  "validatingAllDocuments (timerFired E d s) = validatingAllDocuments s"
  "nextPromise s \<le> nextPromise (timerFired E d s)"
  "running (timerFired E d s) = running s \<or>
   (running (timerFired E d s) = running s @ [nextPromise s] \<and>
    nextPromise (timerFired E d s) = Suc (nextPromise s))"
  by (auto simp: timerFired_def validateCompilation_def compileFile_def running_def Let_def)

lemma timerFired_inv: "guard_inv s \<Longrightarrow> guard_inv (timerFired E d s)"
  using timerFired_fields [where E = E and d = d and s = s]
  by (auto simp: guard_inv_def intro: less_le_trans less_SucI)

lemma timerFired_tracked: "tracked P s \<Longrightarrow> tracked P (timerFired E d s)"
  using timerFired_fields [where E = E and d = d and s = s]
  by (fastforce simp: tracked_def)

lemma startValidation_inv: "guard_inv s \<Longrightarrow> guard_inv (startValidation E s)"
  by (auto simp: startValidation_def validateAllDocuments_inv)
     (simp add: guard_inv_def running_def)

lemma startValidation_tracked:
  "guard_inv s \<Longrightarrow> tracked P s \<Longrightarrow> tracked P (startValidation E s)"
  by (auto simp: startValidation_def validateAllDocuments_tracked)
     (simp add: tracked_def running_def)

lemma step_inv: "guard_inv s \<Longrightarrow> guard_inv (step E ev s)"
proof (cases ev)
  case (DidChangeConfiguration st)
  assume g: "guard_inv s"
  show ?thesis
    unfolding DidChangeConfiguration step.simps onDidChangeConfiguration_def Let_def
    by (rule startValidation_inv) (use g in \<open>simp add: guard_inv_def running_def split: option.split\<close>)
next
  case CompilerInitialised
  assume g: "guard_inv s"
  then have "guard_inv (s\<lparr>initialising := initialising s - 1\<rparr>)"
    by (simp add: guard_inv_def running_def)
  then show ?thesis
    unfolding CompilerInitialised step.simps compilerInitialised_def
    using g by (simp add: validateAllDocuments_inv)
next
  case (CompileSettled n outcome)
  assume "guard_inv s"
  then show ?thesis unfolding CompileSettled by (simp add: compileSettled_inv)
next
  case (TimerFired d)
  assume "guard_inv s"
  then show ?thesis unfolding TimerFired by (simp add: timerFired_inv)
qed (simp_all add: onInitialize_def onDidChangeContent_def
       throttle_call_def onDidClose_def throttleFired_def lintAndSendDiagnostics_def
       sendDiagnostics_def Let_def guard_inv_def running_def split: option.split)

lemma step_tracked: "guard_inv s \<Longrightarrow> tracked P s \<Longrightarrow> tracked P (step E ev s)"
proof (cases ev)
  case (DidChangeConfiguration st)
  assume g: "guard_inv s" and t: "tracked P s"
  show ?thesis
    unfolding DidChangeConfiguration step.simps onDidChangeConfiguration_def Let_def
    by (rule startValidation_tracked)
       (use g t in \<open>simp_all add: guard_inv_def tracked_def running_def split: option.split\<close>)
next
  case CompilerInitialised
  assume g: "guard_inv s" and t: "tracked P s"
  then have "guard_inv (s\<lparr>initialising := initialising s - 1\<rparr>)"
    "tracked P (s\<lparr>initialising := initialising s - 1\<rparr>)"
    by (simp_all add: guard_inv_def tracked_def running_def)
  then show ?thesis
    unfolding CompilerInitialised step.simps compilerInitialised_def
    using t by (simp add: validateAllDocuments_tracked)
next
  case (CompileSettled n outcome)
  assume "guard_inv s" "tracked P s"
  then show ?thesis unfolding CompileSettled by (simp add: compileSettled_tracked)
next
  case (TimerFired d)
  assume "guard_inv s" "tracked P s"
  then show ?thesis unfolding TimerFired by (simp add: timerFired_tracked)
qed (simp_all add: onInitialize_def onDidChangeContent_def
       throttle_call_def onDidClose_def throttleFired_def lintAndSendDiagnostics_def
       sendDiagnostics_def Let_def tracked_def running_def split: option.split)

lemma run_inv: "guard_inv s \<Longrightarrow> guard_inv (run E evs s)"
  unfolding run_def by (induction evs arbitrary: s) (simp_all add: step_inv)

lemma run_tracked: "guard_inv s \<Longrightarrow> tracked P s \<Longrightarrow> tracked P (run E evs s)"
  unfolding run_def by (induction evs arbitrary: s) (simp_all add: step_inv step_tracked)

lemma initial_inv: "guard_inv server_initial"
  by (simp add: guard_inv_def server_initial_def running_def)

subsection \<open>One pass at a time\<close>

text \<open>
  C5: take any state the server can reach, call \<open>validateAllDocuments\<close> there, and let
  anything happen afterwards. There is never more than one pending whole-workspace
  aggregate; a call made while the guard is set changes nothing; and as long as one of the
  compilations started by the call is in flight, however the others have settled, the
  guard is still set.
\<close>

theorem validateAll_single_pass:
  "let s1 = run E evs0 server_initial;
       s2 = validateAllDocuments E s1;
       s3 = run E evs s2
   in length (joins s3) \<le> 1 \<and>
      (validatingAllDocuments s1 \<longrightarrow> s2 = s1) \<and>
      (\<forall>n. nextPromise s1 \<le> n \<and> n < nextPromise s2 \<and> n \<in> set (running s3)
             \<longrightarrow> validatingAllDocuments s3)"
proof -
  define s1 where "s1 = run E evs0 server_initial"
  define s2 where "s2 = validateAllDocuments E s1"
  define s3 where "s3 = run E evs s2"
  have i1: "guard_inv s1" unfolding s1_def by (rule run_inv [OF initial_inv])
  then have i2: "guard_inv s2" unfolding s2_def by (rule validateAllDocuments_inv)
  then have i3: "guard_inv s3" unfolding s3_def by (rule run_inv)
  have "tracked {nextPromise s1 ..< nextPromise s2} s2"
    unfolding s2_def by (rule validateAllDocuments_tracks_new [OF i1])
  then have t3: "tracked {nextPromise s1 ..< nextPromise s2} s3"
    unfolding s3_def by (rule run_tracked [OF i2])
  have a: "length (joins s3) \<le> 1" using i3 by (simp add: guard_inv_def)
  have b: "validatingAllDocuments s1 \<longrightarrow> s2 = s1"
    by (simp add: s2_def validateAllDocuments_def)
  have c: "validatingAllDocuments s3"
    if "nextPromise s1 \<le> n" "n < nextPromise s2" "n \<in> set (running s3)" for n
  proof -
    from that t3 obtain j where "j \<in> set (joins s3)"
      by (auto simp: tracked_def)
    then have "joins s3 \<noteq> []" by auto
    with i3 show ?thesis by (simp add: guard_inv_def)
  qed
  from a b c show ?thesis
    unfolding s1_def s2_def s3_def Let_def by blast
qed


theorem validateAll_single_pass_witness:
  "validatingAllDocuments
     (run ex_externals [CompileSettled 0 Rejected]
        (validateAllDocuments ex_externals (run ex_externals ex_two_open server_initial))) \<and>
   \<not> validatingAllDocuments
     (run ex_externals [CompileSettled 0 Rejected, CompileSettled 1 (Fulfilled (Some []))]
        (validateAllDocuments ex_externals (run ex_externals ex_two_open server_initial)))"
proof -
  let ?s1 = "run ex_externals ex_two_open server_initial"
  let ?s2 = "validateAllDocuments ex_externals ?s1"
  let ?s3 = "run ex_externals [CompileSettled 0 Rejected] ?s2"
  have h: "nextPromise ?s1 \<le> 1 \<and> 1 < nextPromise ?s2 \<and> 1 \<in> set (running ?s3)"
    by (simp add: server_defs ex_defs)
  have e: "\<not> validatingAllDocuments
     (run ex_externals [CompileSettled 0 Rejected, CompileSettled 1 (Fulfilled (Some []))] ?s2)"
    by (simp add: server_defs ex_defs)
  from validateAll_single_pass [of ex_externals ex_two_open "[CompileSettled 0 Rejected]"] h
  have "validatingAllDocuments ?s3" unfolding Let_def by blast
  with e show ?thesis by simp
qed

end
